theory Spec2Isabelle
  imports Main "HOL-Library.Word" "HOL-Library.AList"
begin

unbundle bit_operations_syntax

section \<open>The state trie manager of crypto/statetrie\<close>

text \<open>
  The development follows \<^verbatim>\<open>crypto/statetrie/trie.go\<close>: the \<^verbatim>\<open>Trie\<close> struct (the store
  manager of the Merkle-Patricia trie) and its methods \<^verbatim>\<open>MakeTrie\<close>, \<^verbatim>\<open>Add\<close>, \<^verbatim>\<open>Delete\<close>,
  \<^verbatim>\<open>SetRoot\<close>, \<^verbatim>\<open>RootHash\<close>, \<^verbatim>\<open>child\<close>, \<^verbatim>\<open>merge\<close>, \<^verbatim>\<open>Commit\<close>, \<^verbatim>\<open>getNode\<close>, \<^verbatim>\<open>delNode\<close> and
  \<^verbatim>\<open>addNode\<close>. The diagnostic code (\<^verbatim>\<open>countNodes\<close>, \<^verbatim>\<open>DotGraph\<close>, the \<^verbatim>\<open>debugTrie\<close> printing and
  the process-wide \<^verbatim>\<open>stats\<close> counters) has no effect on the trie and is left out.
\<close>

subsection \<open>Bytes, nibbles, digests, errors\<close>

type_synonym byte = "8 word"

text \<open>\<^verbatim>\<open>nibbles\<close> is a Go byte slice holding one 4-bit value per element.\<close>

type_synonym nibbles = "byte list"

text \<open>\<^verbatim>\<open>crypto.Digest\<close> is \<^verbatim>\<open>[32]byte\<close>; its zero value \<^verbatim>\<open>crypto.Digest{}\<close> is 32 zero bytes.\<close>

type_synonym digest = "byte list"

definition zero_digest :: digest where
  "zero_digest = replicate 32 0"

definition MaxKeyLength :: nat where
  "MaxKeyLength = 65535"

text \<open>
  Go error values. \<^verbatim>\<open>Add\<close> and \<^verbatim>\<open>Delete\<close> create two errors of their own with
  \<^verbatim>\<open>errors.New\<close>: \<open>EmptyKey\<close> is \<^verbatim>\<open>errors.New("empty key not allowed")\<close> and \<open>KeyTooLong\<close> is
  \<^verbatim>\<open>errors.New("key too long")\<close>. Every other error reaching the manager was created outside
  \<^verbatim>\<open>trie.go\<close> (by the backing store or by a node method) and is handed on unchanged; it is
  \<open>Foreign\<close> with its message. \<open>BadNibble\<close> and \<open>BadEncoding\<close> are the two errors of the
  nibble-path codec.
\<close>

datatype error = EmptyKey | KeyTooLong | BadNibble | BadEncoding | Foreign string

text \<open>
  A Go call either returns or panics. \<open>PanicErr e\<close> is \<^verbatim>\<open>panic(e)\<close>; \<open>NilDereference\<close> is the
  run-time panic of a nil pointer dereference.
\<close>

datatype panic = NilDereference | PanicErr error

datatype 'a outcome = Returned 'a | Panicked panic

subsection \<open>Nibble packing\<close>

text \<open>
  Modelled from the spec: \<^verbatim>\<open>pack\<close> and \<^verbatim>\<open>unpack\<close> are exercised by \<^verbatim>\<open>TestNibbleUtilities\<close> and
  \<^verbatim>\<open>TestNibbles\<close>, but their code is not among the sources. Section 4.1 of the specification
  defines them: \<^verbatim>\<open>pack\<close> places nibble \<open>i\<close> in the high half of byte \<open>i div 2\<close> when \<open>i\<close> is
  even and in the low half otherwise, reports \<open>half\<close> when the length is odd (the last low
  nibble is then zero), and fails with \<open>BadNibble\<close> when an element exceeds 15; \<^verbatim>\<open>unpack\<close> is
  the inverse and drops the trailing zero nibble when \<open>half\<close> is set, failing with
  \<open>BadEncoding\<close> on input that no packing produces (no byte to drop the nibble from, or a
  trailing low nibble that is not zero).
\<close>

fun pack_bytes :: "nibbles \<Rightarrow> byte list" where
  "pack_bytes [] = []"
| "pack_bytes [hi] = [push_bit 4 hi]"
| "pack_bytes (hi # lo # rest) = (push_bit 4 hi OR lo) # pack_bytes rest"

definition pack :: "nibbles \<Rightarrow> error + (byte list \<times> bool)" where
  "pack n = (if list_ex (\<lambda>x. 15 < x) n then Inl BadNibble
             else Inr (pack_bytes n, odd (length n)))"

fun unpack_bytes :: "byte list \<Rightarrow> nibbles" where
  "unpack_bytes [] = []"
| "unpack_bytes (b # bs) = drop_bit 4 b # (b AND 15) # unpack_bytes bs"

definition unpack :: "byte list \<Rightarrow> bool \<Rightarrow> error + nibbles" where
  "unpack bs half =
     (if half then
        (if bs = [] \<or> last bs AND 15 \<noteq> 0 then Inl BadEncoding
         else Inr (butlast (unpack_bytes bs)))
      else Inr (unpack_bytes bs))"

subsection \<open>The backing store\<close>

text \<open>
  Modelled from the spec: the store is the external pebble database, reached through
  \<^verbatim>\<open>mt.db\<close>. Its contract is section 6 of the specification: \<^verbatim>\<open>Get\<close>, \<^verbatim>\<open>NewBatch\<close>, the batch
  operations \<^verbatim>\<open>Set\<close>, \<^verbatim>\<open>Delete\<close> and \<^verbatim>\<open>Close\<close>, and the atomic \<^verbatim>\<open>Apply\<close>. The store holds a
  key-value map \<open>kv\<close>. Whether one of its operations reports an error is not decided by the
  trie, so it is part of the store: \<open>get_fault\<close> and \<open>delete_fault\<close> give the error message
  (if any) of a \<^verbatim>\<open>Get\<close> or a batch \<^verbatim>\<open>Delete\<close> of a key, \<open>apply_fault\<close> that of \<^verbatim>\<open>Apply\<close> and
  \<open>close_fault\<close> that of closing a batch. \<open>open_batches\<close> counts the batches handed out by
  \<^verbatim>\<open>NewBatch\<close> and not yet closed.
\<close>

datatype batch_op = BatchSet "byte list" "byte list" | BatchDelete "byte list"

record store =
  kv :: "byte list \<rightharpoonup> byte list"
  get_fault :: "byte list \<Rightarrow> string option"
  delete_fault :: "byte list \<Rightarrow> string option"
  apply_fault :: "string option"
  close_fault :: "string option"
  open_batches :: nat

text \<open>\<^verbatim>\<open>db.Get(key)\<close>: a key that is not stored is reported as an error, as pebble does.\<close>

definition Get :: "store \<Rightarrow> byte list \<Rightarrow> error + byte list" where
  "Get s k =
     (case get_fault s k of
        Some m \<Rightarrow> Inl (Foreign m)
      | None \<Rightarrow> (case kv s k of
                   None \<Rightarrow> Inl (Foreign ''pebble: not found'')
                 | Some v \<Rightarrow> Inr v))"

definition NewBatch :: "store \<Rightarrow> store" where
  "NewBatch s = s\<lparr>open_batches := Suc (open_batches s)\<rparr>"

fun apply_op :: "batch_op \<Rightarrow> (byte list \<rightharpoonup> byte list) \<Rightarrow> (byte list \<rightharpoonup> byte list)" where
  "apply_op (BatchSet k v) m = m(k \<mapsto> v)"
| "apply_op (BatchDelete k) m = m(k := None)"

text \<open>\<^verbatim>\<open>db.Apply(b, options)\<close>: all operations of the batch in their order, or none.\<close>

definition Apply :: "store \<Rightarrow> batch_op list \<Rightarrow> error + store" where
  "Apply s b =
     (case apply_fault s of
        Some m \<Rightarrow> Inl (Foreign m)
      | None \<Rightarrow> Inr (s\<lparr>kv := fold apply_op b (kv s)\<rparr>))"

text \<open>\<^verbatim>\<open>b.Close()\<close>: a batch that fails to close stays open.\<close>

definition batch_Close :: "store \<Rightarrow> error option \<times> store" where
  "batch_Close s =
     (case close_fault s of
        Some m \<Rightarrow> (Some (Foreign m), s)
      | None \<Rightarrow> (None, s\<lparr>open_batches := open_batches s - 1\<rparr>))"

subsection \<open>The Trie struct\<close>

text \<open>
  \<^verbatim>\<open>type Trie struct { db *pebble.DB; parent *Trie; root node; dels map[string]node }\<close>.
  The field \<open>db\<close> is nil or points to the store. \<open>parent\<close> is nil or points to the manager
  this one was made from by \<^verbatim>\<open>child\<close>; the parent is kept inside the nested manager, and an
  operation that writes through the pointer returns the nested manager with its parent
  updated. \<open>root\<close> is a Go interface value: nil, or a reference \<open>'n\<close> to a node object. The
  node objects themselves live in a heap \<open>'h\<close> that the node methods read and write, so
  that a method mutating a node in place changes the heap and not the reference. \<open>dels\<close> is a
  Go map from database keys to nodes; it is an association list with distinct keys, whose
  order is the order in which \<^verbatim>\<open>Commit\<close> ranges over the map.
\<close>

datatype db_ref = nil_db | pebble_db

datatype 'n trie =
  Trie (db: db_ref) (parent: "'n trie option") (root: "'n option") (dels: "(byte list \<times> 'n) list")

definition set_parent :: "'n trie option \<Rightarrow> 'n trie \<Rightarrow> 'n trie" where
  "set_parent p mt = Trie (db mt) p (root mt) (dels mt)"

definition set_root :: "'n option \<Rightarrow> 'n trie \<Rightarrow> 'n trie" where
  "set_root r mt = Trie (db mt) (parent mt) r (dels mt)"

definition set_dels :: "(byte list \<times> 'n) list \<Rightarrow> 'n trie \<Rightarrow> 'n trie" where
  "set_dels dl mt = Trie (db mt) (parent mt) (root mt) dl"

text \<open>The number of managers above this one.\<close>

fun depth :: "'n trie \<Rightarrow> nat" where
  "depth (Trie d None r dl) = 0"
| "depth (Trie d (Some p) r dl) = Suc (depth p)"

subsection \<open>The node interface\<close>

text \<open>
  Modelled from the spec: the node types and their methods (\<^verbatim>\<open>makeLeafNode\<close>, \<^verbatim>\<open>makeDBNode\<close>,
  \<^verbatim>\<open>getHash\<close>, \<^verbatim>\<open>getKey\<close>, \<^verbatim>\<open>getDBKey\<close>, \<^verbatim>\<open>descendAdd\<close>, \<^verbatim>\<open>descendDelete\<close>, \<^verbatim>\<open>descendHash\<close>,
  \<^verbatim>\<open>descendHashWithCommit\<close>, \<^verbatim>\<open>deserializeNode\<close>) and \<^verbatim>\<open>crypto.Hash\<close> are called by
  \<^verbatim>\<open>trie.go\<close> but defined elsewhere. They are a parameter of every operation of the manager:
  a record of functions with the signatures of the calls in \<^verbatim>\<open>trie.go\<close>. Following sections
  4.3 to 4.5 of the specification, a constructor allocates a node in the heap; a getter
  reads the heap; the two descents receive the manager and the store (they fault nodes in
  through \<^verbatim>\<open>getNode\<close>) and reach the manager only through \<^verbatim>\<open>addNode\<close> and \<^verbatim>\<open>delNode\<close>, so that
  their effect is a new pending-delete map and a new heap; the two hashing walks write
  hash caches in the heap, and \<^verbatim>\<open>descendHashWithCommit\<close> also emits operations into the
  batch. A method may return an error (its message), or panic.
\<close>

record ('n, 'h) node_methods =
  Hash :: "byte list \<Rightarrow> digest"
  makeLeafNode :: "nibbles \<Rightarrow> digest \<Rightarrow> nibbles \<Rightarrow> 'h \<Rightarrow> 'n \<times> 'h"
  makeDBNode :: "digest \<Rightarrow> nibbles \<Rightarrow> 'h \<Rightarrow> 'n \<times> 'h"
  getHash :: "'n \<Rightarrow> 'h \<Rightarrow> digest option"
  getKey :: "'n \<Rightarrow> 'h \<Rightarrow> nibbles"
  getDBKey :: "'n \<Rightarrow> 'h \<Rightarrow> byte list option"
  descendAdd :: "'n \<Rightarrow> 'n trie \<Rightarrow> nibbles \<Rightarrow> nibbles \<Rightarrow> digest \<Rightarrow> store \<Rightarrow> 'h
                  \<Rightarrow> ('n option \<times> string option) outcome \<times> (byte list \<times> 'n) list \<times> 'h"
  descendDelete :: "'n \<Rightarrow> 'n trie \<Rightarrow> nibbles \<Rightarrow> nibbles \<Rightarrow> store \<Rightarrow> 'h
                  \<Rightarrow> ('n option \<times> bool \<times> string option) outcome \<times> (byte list \<times> 'n) list \<times> 'h"
  descendHash :: "'n \<Rightarrow> 'h \<Rightarrow> string option outcome \<times> 'h"
  descendHashWithCommit :: "'n \<Rightarrow> 'h \<Rightarrow> string option outcome \<times> batch_op list \<times> 'h"
  deserializeNode :: "byte list \<Rightarrow> nibbles \<Rightarrow> 'h \<Rightarrow> ('n option \<times> string option) outcome \<times> 'h"

subsection \<open>The methods of the manager\<close>

text \<open>\<^verbatim>\<open>MakeTrie(db)\<close>: no parent, no root, an empty pending-delete map; the error is nil.\<close>

definition MakeTrie :: "db_ref \<Rightarrow> 'n trie" where
  "MakeTrie d = Trie d None None []"


definition addNode :: "('n, 'h) node_methods \<Rightarrow> 'n \<Rightarrow> 'h \<Rightarrow> 'n trie \<Rightarrow> 'n trie" where
  "addNode M n h mt = set_dels (AList.delete (getKey M n h) (dels mt)) mt"

text \<open>
  \<^verbatim>\<open>getNode(dbn)\<close> returns the pair \<^verbatim>\<open>(node, error)\<close>. With a database key that is scheduled
  for deletion it returns \<^verbatim>\<open>nil, nil\<close> before the store is read. Otherwise it reads the store
  and deserializes; an error of either step is passed to \<^verbatim>\<open>panic\<close>. A nil \<^verbatim>\<open>mt.db\<close> makes the
  read a nil dereference.
\<close>

definition getNode :: "('n, 'h) node_methods \<Rightarrow> 'n trie \<Rightarrow> 'n \<Rightarrow> store \<Rightarrow> 'h
                        \<Rightarrow> ('n option \<times> error option) outcome \<times> 'h" where
  "getNode M mt dbn s h =
     (case getDBKey M dbn h of
        None \<Rightarrow> (Returned (None, None), h)
      | Some dbKey \<Rightarrow>
          if map_of (dels mt) dbKey \<noteq> None then (Returned (None, None), h)
          else (case db mt of
                  nil_db \<Rightarrow> (Panicked NilDereference, h)
                | pebble_db \<Rightarrow>
                    (case Get s dbKey of
                       Inl err \<Rightarrow> (Panicked (PanicErr err), h)
                     | Inr dbbytes \<Rightarrow>
                         (case deserializeNode M dbbytes (getKey M dbn h) h of
                            (Panicked p, h') \<Rightarrow> (Panicked p, h')
                          | (Returned (trieNode, Some m), h') \<Rightarrow>
                              (Panicked (PanicErr (Foreign m)), h')
                          | (Returned (trieNode, None), h') \<Rightarrow>
                              (Returned (trieNode, None), h')))))"

text \<open>
  \<^verbatim>\<open>Add(key, value)\<close> returns an error or nil. The two length checks come first. With no
  root, a leaf is made and becomes the root. Otherwise the root descends; only when the
  descent returns no error is its replacement stored in \<^verbatim>\<open>mt.root\<close>.
\<close>

definition Add :: "('n, 'h) node_methods \<Rightarrow> 'n trie \<Rightarrow> nibbles \<Rightarrow> byte list \<Rightarrow> store \<Rightarrow> 'h
                    \<Rightarrow> error option outcome \<times> 'n trie \<times> 'h" where
  "Add M mt key val s h =
     (if length key = 0 then (Returned (Some EmptyKey), mt, h)
      else if length key > MaxKeyLength then (Returned (Some KeyTooLong), mt, h)
      else (case root mt of
              None \<Rightarrow>
                (case makeLeafNode M key (Hash M val) [] h of
                   (n, h1) \<Rightarrow> (Returned None, addNode M n h1 (set_root (Some n) mt), h1))
            | Some r \<Rightarrow>
                (case descendAdd M r mt [] key (Hash M val) s h of
                   (Panicked p, dl, h1) \<Rightarrow> (Panicked p, set_dels dl mt, h1)
                 | (Returned (replacement, Some m), dl, h1) \<Rightarrow>
                     (Returned (Some (Foreign m)), set_dels dl mt, h1)
                 | (Returned (replacement, None), dl, h1) \<Rightarrow>
                     (Returned None, set_root replacement (set_dels dl mt), h1))))"

text \<open>
  \<^verbatim>\<open>Delete(key)\<close> returns \<^verbatim>\<open>(bool, error)\<close>. The replacement is stored only under
  \<^verbatim>\<open>err == nil && found\<close>; \<^verbatim>\<open>found\<close> and the error are returned as the descent gave them.
\<close>

definition Delete :: "('n, 'h) node_methods \<Rightarrow> 'n trie \<Rightarrow> nibbles \<Rightarrow> store \<Rightarrow> 'h
                       \<Rightarrow> (bool \<times> error option) outcome \<times> 'n trie \<times> 'h" where
  "Delete M mt key s h =
     (if length key = 0 then (Returned (False, Some EmptyKey), mt, h)
      else if length key > MaxKeyLength then (Returned (False, Some KeyTooLong), mt, h)
      else (case root mt of
              None \<Rightarrow> (Returned (False, None), mt, h)
            | Some r \<Rightarrow>
                (case descendDelete M r mt [] key s h of
                   (Panicked p, dl, h1) \<Rightarrow> (Panicked p, set_dels dl mt, h1)
                 | (Returned (replacement, found, Some m), dl, h1) \<Rightarrow>
                     (Returned (found, Some (Foreign m)), set_dels dl mt, h1)
                 | (Returned (replacement, found, None), dl, h1) \<Rightarrow>
                     (Returned (found, None),
                      (if found then set_root replacement (set_dels dl mt) else set_dels dl mt),
                      h1))))"

text \<open>\<^verbatim>\<open>SetRoot(root)\<close>: the root becomes \<^verbatim>\<open>makeDBNode(rootdigest, nibbles{})\<close>.\<close>

definition SetRoot :: "('n, 'h) node_methods \<Rightarrow> 'n trie \<Rightarrow> digest \<Rightarrow> 'h \<Rightarrow> 'n trie \<times> 'h" where
  "SetRoot M mt rootdigest h =
     (case makeDBNode M rootdigest [] h of (n, h1) \<Rightarrow> (set_root (Some n) mt, h1))"

text \<open>
  \<^verbatim>\<open>RootHash()\<close> returns \<^verbatim>\<open>(crypto.Digest, error)\<close>. It writes no field of the manager; the
  hashing walk writes hash caches of node objects. The final \<^verbatim>\<open>*(mt.root.getHash())\<close> is a nil
  dereference when the walk left no hash on the root.
\<close>

definition RootHash :: "('n, 'h) node_methods \<Rightarrow> 'n trie \<Rightarrow> 'h
                         \<Rightarrow> (digest \<times> error option) outcome \<times> 'h" where
  "RootHash M mt h =
     (case root mt of
        None \<Rightarrow> (Returned (zero_digest, None), h)
      | Some r \<Rightarrow>
          (case getHash M r h of
             Some d \<Rightarrow> (Returned (d, None), h)
           | None \<Rightarrow>
               (case descendHash M r h of
                  (Panicked p, h1) \<Rightarrow> (Panicked p, h1)
                | (Returned (Some m), h1) \<Rightarrow> (Returned (zero_digest, Some (Foreign m)), h1)
                | (Returned None, h1) \<Rightarrow>
                    (case getHash M r h1 of
                       None \<Rightarrow> (Panicked NilDereference, h1)
                     | Some d \<Rightarrow> (Returned (d, None), h1)))))"

text \<open>\<^verbatim>\<open>child()\<close>: \<^verbatim>\<open>&Trie{root: mt.root, parent: mt}\<close> with a fresh map; \<^verbatim>\<open>db\<close> is left nil.\<close>

definition child :: "'n trie \<Rightarrow> 'n trie" where
  "child mt = Trie nil_db (Some mt) (root mt) []"

text \<open>
  \<^verbatim>\<open>merge()\<close> always returns nil. With a parent, it writes the root into the parent and
  stores every entry of \<^verbatim>\<open>mt.dels\<close> into \<^verbatim>\<open>mt.parent.dels\<close>.
\<close>

definition merge :: "'n trie \<Rightarrow> 'n trie" where
  "merge mt =
     (case parent mt of
        None \<Rightarrow> mt
      | Some p \<Rightarrow>
          set_parent
            (Some (set_dels (fold (\<lambda>(k, v). AList.update k v) (dels mt) (dels p))
                            (set_root (root mt) p)))
            mt)"

lemma depth_Trie: "depth (Trie d p r dl) = (case p of None \<Rightarrow> 0 | Some q \<Rightarrow> Suc (depth q))"
  by (cases p) simp_all

lemma depth_merge_parent:
  "parent (merge mt) = Some p1 \<Longrightarrow> depth p1 < depth mt"
  by (cases mt; cases "parent mt"; cases "the (parent mt)")
     (auto simp add: merge_def set_parent_def set_dels_def set_root_def depth_Trie
           simp del: depth.simps)

text \<open>The loop \<^verbatim>\<open>for k := range mt.dels\<close> of \<^verbatim>\<open>Commit\<close>: it stops at the first failing delete.\<close>

fun batch_deletes :: "store \<Rightarrow> byte list list \<Rightarrow> error + batch_op list" where
  "batch_deletes s [] = Inr []"
| "batch_deletes s (k # ks) =
     (case delete_fault s k of
        Some m \<Rightarrow> Inl (Foreign m)
      | None \<Rightarrow> (case batch_deletes s ks of
                   Inl e \<Rightarrow> Inl e
                 | Inr b \<Rightarrow> Inr (BatchDelete k # b)))"

text \<open>
  \<^verbatim>\<open>Commit()\<close> returns an error or nil. A nested manager merges and commits on its parent.
  Otherwise a batch is taken from the store, the root is hashed into it, a delete is added
  for every key of \<^verbatim>\<open>mt.dels\<close>, the batch is applied and closed, and \<^verbatim>\<open>mt.dels\<close> is replaced
  by an empty map. Each \<^verbatim>\<open>return err\<close> leaves at once. With a nil \<^verbatim>\<open>mt.db\<close> the batch is
  still handed out (it belongs to no store), the walk and the deletes run on it, and
  \<^verbatim>\<open>mt.db.Apply\<close> is the nil dereference.
\<close>

function Commit :: "('n, 'h) node_methods \<Rightarrow> 'n trie \<Rightarrow> store \<Rightarrow> 'h
                     \<Rightarrow> error option outcome \<times> 'n trie \<times> store \<times> 'h" where
  "Commit M mt s h =
     (case parent mt of
        Some p \<Rightarrow>
          (case parent (merge mt) of
             None \<Rightarrow> (Panicked NilDereference, merge mt, s, h)
           | Some p1 \<Rightarrow>
               (case Commit M p1 s h of
                  (res, p2, s', h') \<Rightarrow> (res, set_parent (Some p2) (merge mt), s', h')))
      | None \<Rightarrow>
          (case db mt of
             nil_db \<Rightarrow>
               (case (case root mt of
                        None \<Rightarrow> (Returned None, [], h)
                      | Some r \<Rightarrow> descendHashWithCommit M r h) of
                  (Panicked p, b, h1) \<Rightarrow> (Panicked p, mt, s, h1)
                | (Returned (Some m), b, h1) \<Rightarrow> (Returned (Some (Foreign m)), mt, s, h1)
                | (Returned None, b, h1) \<Rightarrow> (Panicked NilDereference, mt, s, h1))
           | pebble_db \<Rightarrow>
               (case (case root mt of
                        None \<Rightarrow> (Returned None, [], h)
                      | Some r \<Rightarrow> descendHashWithCommit M r h) of
                  (Panicked p, b, h1) \<Rightarrow> (Panicked p, mt, NewBatch s, h1)
                | (Returned (Some m), b, h1) \<Rightarrow> (Returned (Some (Foreign m)), mt, NewBatch s, h1)
                | (Returned None, b, h1) \<Rightarrow>
                    (case batch_deletes (NewBatch s) (map fst (dels mt)) of
                       Inl err \<Rightarrow> (Returned (Some err), mt, NewBatch s, h1)
                     | Inr ds \<Rightarrow>
                         (case Apply (NewBatch s) (b @ ds) of
                            Inl err \<Rightarrow> (Returned (Some err), mt, NewBatch s, h1)
                          | Inr s2 \<Rightarrow>
                              (case batch_Close s2 of
                                 (Some err, s3) \<Rightarrow> (Returned (Some err), mt, s3, h1)
                               | (None, s3) \<Rightarrow> (Returned None, set_dels [] mt, s3, h1)))))))"
  by pat_completeness auto
termination
  by (relation "measure (\<lambda>(M, mt, s, h). depth mt)") (auto simp add: depth_merge_parent)

declare Commit.simps [simp del]

text \<open>
  What the \<^verbatim>\<open>merge\<close> calls of a nested \<^verbatim>\<open>Commit\<close> leave behind: every manager of the chain
  merged into its parent, up to the manager without parent. It is used to state what the
  managers are after a \<^verbatim>\<open>Commit\<close> that did not succeed.
\<close>

function merged_chain :: "'n trie \<Rightarrow> 'n trie" where
  "merged_chain mt =
     (case parent mt of
        None \<Rightarrow> mt
      | Some p \<Rightarrow>
          (case parent (merge mt) of
             None \<Rightarrow> merge mt
           | Some p1 \<Rightarrow> set_parent (Some (merged_chain p1)) (merge mt)))"
  by pat_completeness auto
termination
  by (relation "measure depth") (auto simp add: depth_merge_parent)

declare merged_chain.simps [simp del]

text \<open>
  Modelled from the spec: a hash cache is empty or holds the digest of the node (section 3,
  invariant 5), and the hashing walks reuse a cached digest (section 4.4). For the walk of
  \<^verbatim>\<open>Commit\<close> this says: a node whose hash is cached before \<^verbatim>\<open>descendHashWithCommit\<close> has the
  same hash cached after it.
\<close>

definition cached_hash_kept :: "('n, 'h) node_methods \<Rightarrow> bool" where
  "cached_hash_kept M \<longleftrightarrow>
     (\<forall>n h d b h'. getHash M n h = Some d \<longrightarrow>
        descendHashWithCommit M n h = (Returned None, b, h') \<longrightarrow> getHash M n h' = Some d)"

text \<open>
  Modelled from the spec: \<^verbatim>\<open>descendHashWithCommit\<close> is the post-order walk of \<^verbatim>\<open>descendHash\<close>
  that also emits the write of every node it hashes (section 4.4), so that after either
  walk from the same heap the node carries the same hash.
\<close>

definition hashing_walks_agree :: "('n, 'h) node_methods \<Rightarrow> bool" where
  "hashing_walks_agree M \<longleftrightarrow>
     (\<forall>n h h1 b h2. descendHash M n h = (Returned None, h1) \<longrightarrow>
        descendHashWithCommit M n h = (Returned None, b, h2) \<longrightarrow>
        getHash M n h2 = getHash M n h1)"

subsection \<open>A small node layer and concrete inputs\<close>

text \<open>
  The theorems below hold for every record of node methods. To run the manager on concrete
  inputs, here is one small node layer: a node is the index of a cell in a list, and a cell
  is a single leaf (its path \<open>ckey\<close>, the rest of its key \<open>ckeyEnd\<close>, its value hash and its
  hash cache) or, made by \<^verbatim>\<open>makeDBNode\<close>, a placeholder that carries only a path and a hash.
  A cell has a database key once it has a hash. A cell cannot be split: adding a second key
  under it is refused with an error. Hashing caches a digest of the cell's bytes and leaves
  a cached digest alone; hashing with commit also emits the write of the cell. \<open>cell_Hash\<close>
  stands in for \<^verbatim>\<open>crypto.Hash\<close> (it pads or cuts to 32 bytes).
\<close>

record cell =
  ckey :: nibbles
  ckeyEnd :: nibbles
  cvalue :: digest
  chash :: "digest option"

definition cell_bytes :: "cell \<Rightarrow> byte list" where
  "cell_bytes c = cvalue c @ ckeyEnd c"

definition cell_Hash :: "byte list \<Rightarrow> digest" where
  "cell_Hash bs = take 32 (bs @ replicate 32 0)"

definition cell_methods :: "(nat, cell list) node_methods" where
  "cell_methods = \<lparr>
     Hash = cell_Hash,
     makeLeafNode = (\<lambda>keyEnd valueHash key h.
        (length h, h @ [\<lparr>ckey = key, ckeyEnd = keyEnd, cvalue = valueHash, chash = None\<rparr>])),
     makeDBNode = (\<lambda>hash key h.
        (length h, h @ [\<lparr>ckey = key, ckeyEnd = [], cvalue = [], chash = Some hash\<rparr>])),
     getHash = (\<lambda>n h. chash (h ! n)),
     getKey = (\<lambda>n h. ckey (h ! n)),
     getDBKey = (\<lambda>n h. case chash (h ! n) of None \<Rightarrow> None | Some d \<Rightarrow> Some (ckey (h ! n))),
     descendAdd = (\<lambda>n mt pathKey remainingKey valueHash s h.
        if ckeyEnd (h ! n) = remainingKey
        then (Returned (Some n, None), dels mt,
              h[n := (h ! n)\<lparr>cvalue := valueHash, chash := None\<rparr>])
        else (Returned (None, Some ''cell: no room for a second key''), dels mt, h)),
     descendDelete = (\<lambda>n mt pathKey remainingKey s h.
        if ckeyEnd (h ! n) = remainingKey
        then (Returned (None, True, None), dels mt, h)
        else (Returned (Some n, False, None), dels mt, h)),
     descendHash = (\<lambda>n h.
        case chash (h ! n) of
          Some d \<Rightarrow> (Returned None, h)
        | None \<Rightarrow>
            (Returned None, h[n := (h ! n)\<lparr>chash := Some (cell_Hash (cell_bytes (h ! n)))\<rparr>])),
     descendHashWithCommit = (\<lambda>n h.
        case chash (h ! n) of
          Some d \<Rightarrow> (Returned None, [], h)
        | None \<Rightarrow>
            (Returned None, [BatchSet (ckey (h ! n)) (cell_bytes (h ! n))],
             h[n := (h ! n)\<lparr>chash := Some (cell_Hash (cell_bytes (h ! n)))\<rparr>])),
     deserializeNode = (\<lambda>bs key h.
        if length bs < 32 then (Returned (None, Some ''cell: truncated''), h)
        else (Returned (Some (length h), None),
              h @ [\<lparr>ckey = key, ckeyEnd = drop 32 bs, cvalue = take 32 bs, chash = None\<rparr>]))
   \<rparr>"

text \<open>Stores: one that never fails, one whose \<^verbatim>\<open>Apply\<close> fails, one whose \<^verbatim>\<open>Get\<close> fails.\<close>

definition healthy_store :: store where
  "healthy_store = \<lparr>kv = Map.empty, get_fault = (\<lambda>k. None), delete_fault = (\<lambda>k. None),
                     apply_fault = None, close_fault = None, open_batches = 0\<rparr>"

definition broken_store :: store where
  "broken_store = healthy_store\<lparr>apply_fault := Some ''apply failed''\<rparr>"

definition unreadable_store :: store where
  "unreadable_store = healthy_store\<lparr>get_fault := (\<lambda>k. Some ''read failed'')\<rparr>"

text \<open>A leaf for the key \<open>[1, 2]\<close> before and after hashing, and a placeholder.\<close>

definition leaf_cell :: cell where
  "leaf_cell = \<lparr>ckey = [], ckeyEnd = [1, 2], cvalue = cell_Hash [7], chash = None\<rparr>"

definition hashed_leaf_cell :: cell where
  "hashed_leaf_cell = leaf_cell\<lparr>chash := Some (cell_Hash (cell_bytes leaf_cell))\<rparr>"

definition placeholder_cell :: cell where
  "placeholder_cell = \<lparr>ckey = [], ckeyEnd = [], cvalue = [], chash = Some (cell_Hash [5])\<rparr>"

text \<open>
  Managers over the cell at index 0: \<open>placed_trie\<close> has nothing pending, \<open>stale_trie\<close> has
  the database key \<open>[9]\<close> pending for deletion, \<open>nested_trie\<close> is a child of \<open>stale_trie\<close>
  with the key \<open>[5]\<close> pending.
\<close>

definition placed_trie :: "nat trie" where
  "placed_trie = Trie pebble_db None (Some 0) []"

definition stale_trie :: "nat trie" where
  "stale_trie = Trie pebble_db None (Some 0) [([9], 0)]"

definition nested_trie :: "nat trie" where
  "nested_trie = Trie nil_db (Some stale_trie) (Some 0) [([5], 0)]"

text \<open>
  \<open>pending_trie\<close> has the database key of its own root pending; \<open>old_store\<close> holds a value
  under the key \<open>[9]\<close>, and \<open>leaf_store\<close> holds the bytes of the leaf under the empty path.
\<close>

definition pending_trie :: "nat trie" where
  "pending_trie = Trie pebble_db None (Some 0) [([], 0)]"

definition old_store :: store where
  "old_store = healthy_store\<lparr>kv := [[9] \<mapsto> [1]]\<rparr>"

definition leaf_store :: store where
  "leaf_store = healthy_store\<lparr>kv := [[] \<mapsto> cell_bytes leaf_cell]\<rparr>"



definition short_store :: store where
  "short_store = healthy_store\<lparr>kv := [[] \<mapsto> [1]]\<rparr>"

section \<open>Properties\<close>

subsection \<open>Auxiliary facts\<close>

lemma nibble_mask:
  assumes "(x::byte) \<le> 15"
  shows "x AND mask 4 = x"
proof -
  have "x < 2 ^ 4" using assms by (simp add: word_le_nat_alt word_less_nat_alt)
  then show ?thesis by (rule less_mask_eq)
qed

lemma nibble_bit:
  assumes "(x::byte) \<le> 15" and "bit x n"
  shows "n < 4"
proof -
  have "bit (x AND mask 4) n" using assms by (simp add: nibble_mask)
  then show ?thesis by (simp add: bit_and_iff bit_mask_iff)
qed

lemma drop_nibble: "(x::byte) \<le> 15 \<Longrightarrow> drop_bit 4 x = 0"
  by (rule bit_word_eqI) (auto simp add: bit_simps dest: nibble_bit)

lemma drop_push_nibble: "(x::byte) \<le> 15 \<Longrightarrow> drop_bit 4 (push_bit 4 x) = x"
  by (rule bit_word_eqI) (auto simp add: bit_simps dest: nibble_bit)

lemma low_of_push: "push_bit 4 (x::byte) AND 15 = 0"
proof -
  have "push_bit 4 x AND mask 4 = 0"
    by (rule bit_word_eqI) (auto simp add: bit_simps)
  then show ?thesis by (simp add: mask_eq_exp_minus_1)
qed

lemma low_of_nibble: "(x::byte) \<le> 15 \<Longrightarrow> x AND 15 = x"
  using nibble_mask [of x] by (simp add: mask_eq_exp_minus_1)

lemma unpack_pack_even:
  "list_all (\<lambda>x. x \<le> 15) n \<Longrightarrow> even (length n) \<Longrightarrow> unpack_bytes (pack_bytes n) = n"
  by (induction n rule: pack_bytes.induct)
     (simp_all add: drop_nibble drop_push_nibble low_of_push low_of_nibble word_ao_dist)

lemma unpack_pack_odd:
  "list_all (\<lambda>x. x \<le> 15) n \<Longrightarrow> odd (length n) \<Longrightarrow>
     unpack_bytes (pack_bytes n) = n @ [0] \<and> pack_bytes n \<noteq> [] \<and>
     last (pack_bytes n) AND 15 = 0"
  by (induction n rule: pack_bytes.induct)
     (simp_all add: drop_nibble drop_push_nibble low_of_push low_of_nibble word_ao_dist)

lemma pack_nibbles:
  "list_all (\<lambda>x. x \<le> 15) n \<Longrightarrow> pack n = Inr (pack_bytes n, odd (length n))"
  by (simp add: pack_def list_ex_iff list_all_iff not_less)

lemma trie_fields [simp]:
  "db (set_parent p mt) = db mt" "parent (set_parent p mt) = p"
  "root (set_parent p mt) = root mt" "dels (set_parent p mt) = dels mt"
  "db (set_root r mt) = db mt" "parent (set_root r mt) = parent mt"
  "root (set_root r mt) = r" "dels (set_root r mt) = dels mt"
  "db (set_dels dl mt) = db mt" "parent (set_dels dl mt) = parent mt"
  "root (set_dels dl mt) = root mt" "dels (set_dels dl mt) = dl"
  by (simp_all add: set_parent_def set_root_def set_dels_def)

lemma merge_fields:
  "parent mt = Some p \<Longrightarrow>
     parent (merge mt) =
       Some (set_dels (fold (\<lambda>(k, v). AList.update k v) (dels mt) (dels p))
                      (set_root (root mt) p))"
  "root (merge mt) = root mt" "dels (merge mt) = dels mt" "db (merge mt) = db mt"
  by (simp_all add: merge_def split: option.splits)

lemma Commit_nested:
  "parent mt = Some p \<Longrightarrow> parent (merge mt) = Some p1 \<Longrightarrow>
     Commit M mt s h =
       (case Commit M p1 s h of
          (res, p2, s', h') \<Rightarrow> (res, set_parent (Some p2) (merge mt), s', h'))"
  by (subst Commit.simps) simp

lemma Commit_top_unchanged:
  "parent mt = None \<Longrightarrow> Commit M mt s h = (res, mt', s', h') \<Longrightarrow> res \<noteq> Returned None \<Longrightarrow>
     mt' = mt"
  by (subst (asm) Commit.simps)
     (auto split: option.splits db_ref.splits prod.splits outcome.splits sum.splits)

lemma Commit_top_cleared:
  "parent mt = None \<Longrightarrow> Commit M mt s h = (Returned None, mt', s', h') \<Longrightarrow>
     mt' = set_dels [] mt"
  by (subst (asm) Commit.simps)
     (auto split: option.splits db_ref.splits prod.splits outcome.splits sum.splits)

lemma Commit_receiver:
  "Commit M mt s h = (res, mt', s', h') \<Longrightarrow> parent mt \<noteq> None \<Longrightarrow>
     root mt' = root mt \<and> dels mt' = dels mt \<and> db mt' = db mt"
  by (subst (asm) Commit.simps)
     (auto split: option.splits prod.splits simp add: merge_fields)

lemma Commit_root: "Commit M mt s h = (res, mt', s', h') \<Longrightarrow> root mt' = root mt"
  by (subst (asm) Commit.simps)
     (auto simp add: merge_fields
           split: option.splits db_ref.splits outcome.splits sum.splits prod.splits)

lemma Commit_success_heap:
  "Commit M mt s h = (Returned None, mt', s', h') \<Longrightarrow>
     (case root mt of
        None \<Rightarrow> h' = h
      | Some r \<Rightarrow> (\<exists>b. descendHashWithCommit M r h = (Returned None, b, h')))"
proof (induction M mt s h arbitrary: mt' s' h' rule: Commit.induct)
  case (1 M mt s h)
  show ?case
  proof (cases "parent mt")
    case None
    with "1.prems" show ?thesis
      by (subst (asm) Commit.simps)
         (auto split: option.splits db_ref.splits outcome.splits sum.splits prod.splits)
  next
    case (Some p)
    let ?p1 = "set_dels (fold (\<lambda>(k, v). AList.update k v) (dels mt) (dels p))
                        (set_root (root mt) p)"
    have p1: "parent (merge mt) = Some ?p1" using Some by (rule merge_fields)
    from "1.prems" obtain p2 where c: "Commit M ?p1 s h = (Returned None, p2, s', h')"
      by (subst (asm) Commit_nested [OF Some p1]) (auto split: prod.splits)
    from "1.IH" [OF Some p1 c] show ?thesis by simp
  qed
qed

lemma RootHash_cached:
  "RootHash M mt h = (Returned (d, None), h1) \<Longrightarrow> root mt = Some r \<Longrightarrow>
     getHash M r h1 = Some d"
  by (auto simp add: RootHash_def split: option.splits prod.splits outcome.splits)

lemma RootHash_computed:
  "RootHash M mt h = (Returned (d, None), h1) \<Longrightarrow> root mt = Some r \<Longrightarrow> getHash M r h = None \<Longrightarrow>
     descendHash M r h = (Returned None, h1) \<and> getHash M r h1 = Some d"
  by (auto simp add: RootHash_def split: option.splits prod.splits outcome.splits)

lemma RootHash_of_cache:
  "root mt = Some r \<Longrightarrow> getHash M r h = Some d \<Longrightarrow> RootHash M mt h = (Returned (d, None), h)"
  by (simp add: RootHash_def)

lemma map_of_fold_update:
  "distinct (map fst xs) \<Longrightarrow>
     map_of (fold (\<lambda>(k, v). AList.update k v) xs ys) = map_of ys ++ map_of xs"
proof (induction xs arbitrary: ys)
  case Nil
  then show ?case by simp
next
  case (Cons x xs)
  obtain k v where x: "x = (k, v)" by (cases x)
  from Cons.prems x have notin: "k \<notin> dom (map_of xs)" and dist: "distinct (map fst xs)"
    by (auto simp add: dom_map_of_conv_image_fst)
  have "map_of (fold (\<lambda>(k, v). AList.update k v) (x # xs) ys)
          = map_of (fold (\<lambda>(k, v). AList.update k v) xs (AList.update k v ys))"
    by (simp add: x)
  also have "\<dots> = map_of (AList.update k v ys) ++ map_of xs"
    by (rule Cons.IH [OF dist])
  also have "\<dots> = (map_of ys)(k \<mapsto> v) ++ map_of xs"
    by (simp only: update_conv')
  also have "\<dots> = (map_of ys ++ map_of xs)(k \<mapsto> v)"
    using notin by (rule map_add_upd_left)
  also have "\<dots> = map_of ys ++ (map_of xs)(k \<mapsto> v)"
    by (simp only: map_add_upd)
  also have "\<dots> = map_of ys ++ map_of (x # xs)"
    by (simp only: x map_of.simps fst_conv snd_conv)
  finally show ?case .
qed

lemma fold_update_keeps_key:
  fixes xs ys :: "('k \<times> 'v) list"
  shows "k \<in> fst ` set ys \<Longrightarrow> k \<in> fst ` set (fold (\<lambda>(k, v). AList.update k v) xs ys)"
  by (induction xs arbitrary: ys) (auto simp add: dom_update split: prod.splits)

lemma fold_update_adds_key:
  fixes xs ys :: "('k \<times> 'v) list"
  shows "k \<in> fst ` set xs \<Longrightarrow> k \<in> fst ` set (fold (\<lambda>(k, v). AList.update k v) xs ys)"
proof (induction xs arbitrary: ys)
  case Nil
  then show ?case by simp
next
  case (Cons x xs)
  then show ?case
    by (cases x) (auto simp add: dom_update intro: fold_update_keeps_key)
qed

lemma batch_deletes_ops: "batch_deletes s ks = Inr ds \<Longrightarrow> ds = map BatchDelete ks"
  by (induction ks arbitrary: ds) (auto split: option.splits sum.splits)

lemma fold_apply_deletes:
  "fold apply_op (map BatchDelete ks) m k = (if k \<in> set ks then None else m k)"
  by (induction ks arbitrary: m) auto

lemma Commit_top_success:
  assumes top: "parent mt = None" and ok: "Commit M mt s h = (Returned None, mt', s', h')"
  shows "\<exists>ds m0. batch_deletes (NewBatch s) (map fst (dels mt)) = Inr ds \<and>
                 kv s' = fold apply_op ds m0"
  using ok top
  by (subst (asm) Commit.simps)
     (auto simp add: Apply_def batch_Close_def
           split: option.splits db_ref.splits outcome.splits sum.splits prod.splits)

lemma Commit_deletes_pending:
  "Commit M mt s h = (Returned None, mt', s', h') \<Longrightarrow> k \<in> fst ` set (dels mt) \<Longrightarrow>
     kv s' k = None"
proof (induction M mt s h arbitrary: mt' s' h' rule: Commit.induct)
  case (1 M mt s h)
  show ?case
  proof (cases "parent mt")
    case None
    from Commit_top_success [OF None "1.prems"(1)] obtain ds m0 where
      ds: "batch_deletes (NewBatch s) (map fst (dels mt)) = Inr ds" and
      s': "kv s' = fold apply_op ds m0" by blast
    have "k \<in> set (map fst (dels mt))" using "1.prems"(2) by simp
    then show ?thesis
      unfolding s' batch_deletes_ops [OF ds] by (simp only: fold_apply_deletes if_True)
  next
    case (Some p)
    let ?p1 = "set_dels (fold (\<lambda>(k, v). AList.update k v) (dels mt) (dels p))
                        (set_root (root mt) p)"
    have p1: "parent (merge mt) = Some ?p1" using Some by (rule merge_fields)
    from "1.prems"(1) obtain p2 where c: "Commit M ?p1 s h = (Returned None, p2, s', h')"
      by (subst (asm) Commit_nested [OF Some p1]) (auto split: prod.splits)
    have "k \<in> fst ` set (dels ?p1)" using "1.prems"(2) by (simp add: fold_update_adds_key)
    from "1.IH" [OF Some p1 c this] show ?thesis .
  qed
qed

lemma merged_chain_top: "parent mt = None \<Longrightarrow> merged_chain mt = mt"
  by (subst merged_chain.simps) simp

lemma merged_chain_nested:
  "parent mt = Some p \<Longrightarrow> parent (merge mt) = Some p1 \<Longrightarrow>
     merged_chain mt = set_parent (Some (merged_chain p1)) (merge mt)"
  by (subst merged_chain.simps) simp

lemma set_parent_same: "set_parent (parent mt) mt = mt"
  by (cases mt) (simp add: set_parent_def)

lemma merged_chain_once:
  assumes p: "parent mt = Some p" and top: "parent p = None"
  shows "merged_chain mt = merge mt"
proof -
  let ?p1 = "set_dels (fold (\<lambda>(k, v). AList.update k v) (dels mt) (dels p))
                      (set_root (root mt) p)"
  have p1: "parent (merge mt) = Some ?p1" using p by (rule merge_fields)
  have "parent ?p1 = None" using top by simp
  then have "merged_chain ?p1 = ?p1" by (rule merged_chain_top)
  with merged_chain_nested [OF p p1] have "merged_chain mt = set_parent (Some ?p1) (merge mt)"
    by simp
  also have "\<dots> = merge mt" using set_parent_same [of "merge mt"] p1 by simp
  finally show ?thesis .
qed

lemma Commit_unsuccessful:
  "Commit M mt s h = (res, mt', s', h') \<Longrightarrow> res \<noteq> Returned None \<Longrightarrow> mt' = merged_chain mt"
proof (induction M mt s h arbitrary: mt' s' h' rule: Commit.induct)
  case (1 M mt s h)
  show ?case
  proof (cases "parent mt")
    case None
    from Commit_top_unchanged [OF None "1.prems"] show ?thesis
      by (simp add: merged_chain_top [OF None])
  next
    case (Some p)
    let ?p1 = "set_dels (fold (\<lambda>(k, v). AList.update k v) (dels mt) (dels p))
                        (set_root (root mt) p)"
    have p1: "parent (merge mt) = Some ?p1" using Some by (rule merge_fields)
    from "1.prems"(1) obtain p2 where c: "Commit M ?p1 s h = (res, p2, s', h')"
      and mt': "mt' = set_parent (Some p2) (merge mt)"
      by (subst (asm) Commit_nested [OF Some p1]) (auto split: prod.splits)
    from "1.IH" [OF Some p1 c "1.prems"(2)] have "p2 = merged_chain ?p1" .
    with mt' show ?thesis by (simp add: merged_chain_nested [OF Some p1])
  qed
qed

lemma Commit_heap:
  "Commit M mt s h = (res, mt', s', h') \<Longrightarrow>
     h' = (case root mt of None \<Rightarrow> h | Some r \<Rightarrow> snd (snd (descendHashWithCommit M r h)))"
proof (induction M mt s h arbitrary: mt' s' h' rule: Commit.induct)
  case (1 M mt s h)
  show ?case
  proof (cases "parent mt")
    case None
    with "1.prems" show ?thesis
      by (subst (asm) Commit.simps)
         (auto split: option.splits db_ref.splits outcome.splits sum.splits prod.splits)
  next
    case (Some p)
    let ?p1 = "set_dels (fold (\<lambda>(k, v). AList.update k v) (dels mt) (dels p))
                        (set_root (root mt) p)"
    have p1: "parent (merge mt) = Some ?p1" using Some by (rule merge_fields)
    from "1.prems"(1) obtain p2 where c: "Commit M ?p1 s h = (res, p2, s', h')"
      by (subst (asm) Commit_nested [OF Some p1]) (auto split: prod.splits)
    from "1.IH" [OF Some p1 c] show ?thesis by simp
  qed
qed

subsection \<open>The manager on the concrete inputs\<close>

lemmas cell_simps = cell_methods_def healthy_store_def broken_store_def unreadable_store_def
  placed_trie_def stale_trie_def nested_trie_def leaf_cell_def hashed_leaf_cell_def
  placeholder_cell_def NewBatch_def Apply_def batch_Close_def Get_def

lemma Commit_stale_broken:
  "Commit cell_methods stale_trie broken_store [leaf_cell] =
     (Returned (Some (Foreign ''apply failed'')), stale_trie,
      broken_store\<lparr>open_batches := 1\<rparr>, [hashed_leaf_cell])"
  by (subst Commit.simps) (simp add: cell_simps)

lemma Commit_stale_healthy:
  "Commit cell_methods stale_trie healthy_store [leaf_cell] =
     (Returned None, placed_trie,
      healthy_store\<lparr>kv := [[] \<mapsto> cell_bytes leaf_cell]\<rparr>, [hashed_leaf_cell])"
  by (subst Commit.simps) (simp add: cell_simps set_dels_def)

lemma RootHash_stale:
  "RootHash cell_methods stale_trie [leaf_cell] =
     (Returned (cell_Hash (cell_bytes leaf_cell), None), [hashed_leaf_cell])"
  by (simp add: RootHash_def cell_simps)


lemma Commit_stale_hashed:
  "Commit cell_methods stale_trie healthy_store [hashed_leaf_cell] =
     (Returned None, placed_trie, healthy_store, [hashed_leaf_cell])"
  by (subst Commit.simps) (simp add: cell_simps set_dels_def)

lemma descendAdd_refused:
  "descendAdd cell_methods 0 placed_trie [] [3] (Hash cell_methods [8]) healthy_store [leaf_cell] =
     (Returned (None, Some ''cell: no room for a second key''), [], [leaf_cell])"
  by (simp add: cell_simps)

lemma descendDelete_missing:
  "descendDelete cell_methods 0 placed_trie [] [3] healthy_store [leaf_cell] =
     (Returned (Some 0, False, None), [], [leaf_cell])"
  by (simp add: cell_simps)

lemma cell_cached_hash_kept: "cached_hash_kept cell_methods"
  by (auto simp add: cached_hash_kept_def cell_methods_def split: option.splits)

lemma length_cell_Hash [simp]: "length (cell_Hash bs) = 32"
  by (simp add: cell_Hash_def)

lemma getNode_pending:
  "getNode cell_methods pending_trie 0 unreadable_store [placeholder_cell] =
     (Returned (None, None), [placeholder_cell])"
  by (simp add: getNode_def cell_simps pending_trie_def)

lemma getNode_unreadable:
  "getNode cell_methods placed_trie 0 unreadable_store [placeholder_cell] =
     (Panicked (PanicErr (Foreign ''read failed'')), [placeholder_cell])"
  by (simp add: getNode_def cell_simps)

lemma getNode_loaded:
  "getNode cell_methods placed_trie 0 leaf_store [placeholder_cell] =
     (Returned (Some 1, None), [placeholder_cell, leaf_cell])"
  by (simp add: getNode_def cell_simps leaf_store_def cell_bytes_def)

lemma merge_nested:
  "merge nested_trie =
     Trie nil_db (Some (Trie pebble_db None (Some 0) [([9], 0), ([5], 0)])) (Some 0) [([5], 0)]"
  by (simp add: merge_def nested_trie_def stale_trie_def set_parent_def set_dels_def set_root_def)

lemma Commit_merged_parent:
  "Commit cell_methods (Trie pebble_db None (Some 0) [([9], 0), ([5], 0)]) old_store [leaf_cell] =
     (Returned None, placed_trie,
      healthy_store\<lparr>kv := [[] \<mapsto> cell_bytes leaf_cell]\<rparr>, [hashed_leaf_cell])"
  by (subst Commit.simps) (simp add: cell_simps old_store_def set_dels_def)

lemma SetRoot_stale:
  "SetRoot cell_methods stale_trie (cell_Hash [5]) [] = (stale_trie, [placeholder_cell])"
  by (simp add: SetRoot_def cell_simps set_root_def)

lemma Commit_stale_old:
  "Commit cell_methods stale_trie old_store [placeholder_cell] =
     (Returned None, placed_trie, healthy_store, [placeholder_cell])"
  by (subst Commit.simps) (simp add: cell_simps old_store_def set_dels_def)

lemma cell_hashing_walks_agree: "hashing_walks_agree cell_methods"
  by (auto simp add: hashing_walks_agree_def cell_methods_def split: option.splits)

text \<open>
  A nested manager over the store whose \<^verbatim>\<open>Apply\<close> fails: \<^verbatim>\<open>Commit\<close> returns the error; the
  nested manager has its root and its map as before, and its parent holds the merged map.
\<close>

lemma Commit_nested_broken:
  "Commit cell_methods nested_trie broken_store [leaf_cell] =
     (Returned (Some (Foreign ''apply failed'')),
      Trie nil_db (Some (Trie pebble_db None (Some 0) [([9], 0), ([5], 0)])) (Some 0) [([5], 0)],
      broken_store\<lparr>open_batches := 1\<rparr>, [hashed_leaf_cell])"
proof -
  have top: "Commit cell_methods (Trie pebble_db None (Some 0) [([9], 0), ([5], 0)]) broken_store
          [leaf_cell] =
     (Returned (Some (Foreign ''apply failed'')), Trie pebble_db None (Some 0) [([9], 0), ([5], 0)],
      broken_store\<lparr>open_batches := 1\<rparr>, [hashed_leaf_cell])"
    by (subst Commit.simps) (simp add: cell_simps)
  have p: "parent nested_trie = Some stale_trie"
    by (simp add: nested_trie_def)
  have p1: "parent (merge nested_trie) = Some (Trie pebble_db None (Some 0) [([9], 0), ([5], 0)])"
    by (simp add: merge_nested)
  show ?thesis
    by (simp add: Commit_nested [OF p p1] top merge_nested set_parent_def)
qed

lemma merged_chain_nested_trie:
  "merged_chain nested_trie =
     Trie nil_db (Some (Trie pebble_db None (Some 0) [([9], 0), ([5], 0)])) (Some 0) [([5], 0)]"
proof -
  have p: "parent nested_trie = Some stale_trie" by (simp add: nested_trie_def)
  have p1: "parent (merge nested_trie) = Some (Trie pebble_db None (Some 0) [([9], 0), ([5], 0)])"
    by (simp add: merge_nested)
  have "merged_chain (Trie pebble_db None (Some (0::nat)) [([9], 0), ([5], 0)]) =
          Trie pebble_db None (Some 0) [([9], 0), ([5], 0)]"
    by (rule merged_chain_top) simp
  then show ?thesis
    by (simp add: merged_chain_nested [OF p p1] merge_nested set_parent_def)
qed

lemma Commit_retry_after_failure:
  "Commit cell_methods stale_trie (broken_store\<lparr>open_batches := 1, apply_fault := None\<rparr>)
       [hashed_leaf_cell] =
     (Returned None, placed_trie, healthy_store\<lparr>open_batches := 1\<rparr>, [hashed_leaf_cell])"
  by (subst Commit.simps) (simp add: cell_simps set_dels_def)








lemma getNode_truncated:
  "getNode cell_methods placed_trie 0 short_store [placeholder_cell] =
     (Panicked (PanicErr (Foreign ''cell: truncated'')), [placeholder_cell])"
  by (simp add: getNode_def cell_simps short_store_def)

subsection \<open>Commit and its errors\<close>

text \<open>
  Claim C1 (as the code has it). When \<^verbatim>\<open>Commit\<close> returns an error, the root field and the
  pending-delete map of the manager it was called on are what they were before the call,
  and a manager without parent has all its fields unchanged. The pending-delete map changes
  only when \<^verbatim>\<open>Commit\<close> returns without error, and it is then empty; on a manager without
  parent a successful \<^verbatim>\<open>Commit\<close> always empties it. What \<^verbatim>\<open>Commit\<close> did before the error
  stays: the managers are as the \<^verbatim>\<open>merge\<close> calls left them (\<open>merged_chain\<close>; one level deep
  this is \<open>merge mt\<close>: the parent already holds the nested root and the nested pending
  deletes), and the node heap is the one the hashing walk left (the hash caches are
  written).
\<close>

theorem Commit_error_keeps_state:
  "(Commit M mt s h = (Returned (Some e), mt', s', h') \<longrightarrow>
      mt' = merged_chain mt \<and> root mt' = root mt \<and> dels mt' = dels mt \<and>
      (parent mt = None \<longrightarrow> mt' = mt) \<and>
      (\<forall>p. parent mt = Some p \<and> parent p = None \<longrightarrow> mt' = merge mt) \<and>
      h' = (case root mt of None \<Rightarrow> h | Some r \<Rightarrow> snd (snd (descendHashWithCommit M r h)))) \<and>
   (Commit M mt s h = (res, mt', s', h') \<and> dels mt' \<noteq> dels mt \<longrightarrow>
      res = Returned None \<and> dels mt' = []) \<and>
   (Commit M mt s h = (Returned None, mt', s', h') \<and> parent mt = None \<longrightarrow>
      dels mt' = [] \<and> root mt' = root mt)"
proof -
  have fail: "mt' = merged_chain mt \<and> root mt' = root mt \<and> dels mt' = dels mt \<and>
      (parent mt = None \<longrightarrow> mt' = mt) \<and>
      (\<forall>p. parent mt = Some p \<and> parent p = None \<longrightarrow> mt' = merge mt) \<and>
      h' = (case root mt of None \<Rightarrow> h | Some r \<Rightarrow> snd (snd (descendHashWithCommit M r h)))"
    if c: "Commit M mt s h = (Returned (Some e), mt', s', h')"
  proof -
    have chain: "mt' = merged_chain mt" using Commit_unsuccessful [OF c] by simp
    have root: "root mt' = root mt" using c by (rule Commit_root)
    have top: "mt' = mt" if "parent mt = None"
      using chain merged_chain_top [OF that] by simp
    have dels: "dels mt' = dels mt"
    proof (cases "parent mt")
      case None
      with top show ?thesis by simp
    next
      case (Some p)
      with Commit_receiver [OF c] show ?thesis by simp
    qed
    have once: "mt' = merge mt" if "parent mt = Some p" "parent p = None" for p
      using chain merged_chain_once [OF that] by simp
    from chain root top once dels Commit_heap [OF c] show ?thesis by blast
  qed
  have change: "res = Returned None \<and> dels mt' = []"
    if c: "Commit M mt s h = (res, mt', s', h')" and d: "dels mt' \<noteq> dels mt"
  proof (cases "parent mt")
    case None
    show ?thesis
    proof (cases "res = Returned None")
      case True
      with c have "Commit M mt s h = (Returned None, mt', s', h')" by simp
      from Commit_top_cleared [OF None this] True show ?thesis by simp
    next
      case False
      with Commit_top_unchanged [OF None c] d show ?thesis by simp
    qed
  next
    case (Some p)
    with Commit_receiver [OF c] d show ?thesis by simp
  qed
  have cleared: "dels mt' = [] \<and> root mt' = root mt"
    if "Commit M mt s h = (Returned None, mt', s', h')" and "parent mt = None"
    using Commit_top_cleared [OF that(2) that(1)] by simp
  from fail change cleared show ?thesis by blast
qed

theorem Commit_error_keeps_state_witness:
  "Commit cell_methods nested_trie broken_store [leaf_cell] =
     (Returned (Some (Foreign ''apply failed'')),
      Trie nil_db (Some (Trie pebble_db None (Some 0) [([9], 0), ([5], 0)])) (Some 0) [([5], 0)],
      broken_store\<lparr>open_batches := 1\<rparr>, [hashed_leaf_cell]) \<and>
   merged_chain nested_trie =
     Trie nil_db (Some (Trie pebble_db None (Some 0) [([9], 0), ([5], 0)])) (Some 0) [([5], 0)] \<and>
   parent nested_trie = Some stale_trie \<and> parent stale_trie = None \<and>
   merge nested_trie =
     Trie nil_db (Some (Trie pebble_db None (Some 0) [([9], 0), ([5], 0)])) (Some 0) [([5], 0)] \<and>
   root nested_trie = Some 0 \<and> dels nested_trie = [([5], 0)] \<and>
   snd (snd (descendHashWithCommit cell_methods 0 [leaf_cell])) = [hashed_leaf_cell] \<and>
   Commit cell_methods stale_trie broken_store [leaf_cell] =
     (Returned (Some (Foreign ''apply failed'')), stale_trie,
      broken_store\<lparr>open_batches := 1\<rparr>, [hashed_leaf_cell]) \<and>
   Commit cell_methods stale_trie healthy_store [leaf_cell] =
     (Returned None, placed_trie,
      healthy_store\<lparr>kv := [[] \<mapsto> cell_bytes leaf_cell]\<rparr>, [hashed_leaf_cell]) \<and>
   dels stale_trie = [([9], 0)] \<and> dels placed_trie = [] \<and> root placed_trie = root stale_trie"
proof -
  let ?after = "Trie nil_db (Some (Trie pebble_db None (Some 0) [([9], 0), ([5], 0)])) (Some 0)
                  [([5::byte], 0::nat)]"
  have nested: "parent nested_trie = Some stale_trie \<and> parent stale_trie = None \<and>
      root nested_trie = Some 0 \<and> dels nested_trie = [([5], 0)]"
    by (simp add: nested_trie_def stale_trie_def)
  have plain: "dels stale_trie = [([9], 0)] \<and> dels placed_trie = [] \<and>
      root placed_trie = root stale_trie"
    by (simp add: stale_trie_def placed_trie_def)
  from Commit_error_keeps_state [of cell_methods nested_trie broken_store "[leaf_cell]"
          "Foreign ''apply failed''" ?after "broken_store\<lparr>open_batches := 1\<rparr>"
          "[hashed_leaf_cell]"] Commit_nested_broken
  have raw: "?after = merged_chain nested_trie \<and>
      (\<forall>p. parent nested_trie = Some p \<and> parent p = None \<longrightarrow> ?after = merge nested_trie) \<and>
      [hashed_leaf_cell] =
        (case root nested_trie of
           None \<Rightarrow> [leaf_cell]
         | Some r \<Rightarrow> snd (snd (descendHashWithCommit cell_methods r [leaf_cell])))"
    by blast
  from raw have chain: "merged_chain nested_trie = ?after" by simp
  from raw nested have once: "merge nested_trie = ?after" by metis
  from raw nested have walk:
    "snd (snd (descendHashWithCommit cell_methods 0 [leaf_cell])) = [hashed_leaf_cell]"
    by (metis option.simps(5))
  note success = Commit_error_keeps_state [of cell_methods stale_trie healthy_store
      "[leaf_cell]" EmptyKey placed_trie "healthy_store\<lparr>kv := [[] \<mapsto> cell_bytes leaf_cell]\<rparr>"
      "[hashed_leaf_cell]" "Returned None"]
  from success Commit_stale_healthy nested have emptied: "dels placed_trie = []" by blast
  from chain once walk emptied Commit_nested_broken Commit_stale_broken Commit_stale_healthy
    nested plain
  show ?thesis by (intro conjI) simp_all
qed

text \<open>
  The claim as stated fails: the state after a failed \<^verbatim>\<open>Commit\<close> is not the state before
  it. On the nested manager the parent has the nested pending delete \<open>[5]\<close> in its map
  after the failure. On the manager without parent the leaf is hashed after the failure,
  and the second try, once \<^verbatim>\<open>Apply\<close> works again, succeeds without writing the leaf that a
  first successful \<^verbatim>\<open>Commit\<close> writes under the empty path.
\<close>

theorem Commit_error_changes_state:
  "nested_trie = Trie nil_db (Some (Trie pebble_db None (Some 0) [([9], 0)])) (Some 0) [([5], 0)] \<and>
   Commit cell_methods nested_trie broken_store [leaf_cell] =
     (Returned (Some (Foreign ''apply failed'')),
      Trie nil_db (Some (Trie pebble_db None (Some 0) [([9], 0), ([5], 0)])) (Some 0) [([5], 0)],
      broken_store\<lparr>open_batches := 1\<rparr>, [hashed_leaf_cell]) \<and>
   Trie pebble_db None (Some (0::nat)) [([9], 0), ([5], 0)] \<noteq> Trie pebble_db None (Some 0) [([9], 0)] \<and>
   Commit cell_methods stale_trie broken_store [leaf_cell] =
     (Returned (Some (Foreign ''apply failed'')), stale_trie,
      broken_store\<lparr>open_batches := 1\<rparr>, [hashed_leaf_cell]) \<and>
   [hashed_leaf_cell] \<noteq> [leaf_cell] \<and>
   Commit cell_methods stale_trie (broken_store\<lparr>open_batches := 1, apply_fault := None\<rparr>)
       [hashed_leaf_cell] =
     (Returned None, placed_trie, healthy_store\<lparr>open_batches := 1\<rparr>, [hashed_leaf_cell]) \<and>
   kv (healthy_store\<lparr>open_batches := 1\<rparr>) [] = None \<and>
   Commit cell_methods stale_trie healthy_store [leaf_cell] =
     (Returned None, placed_trie,
      healthy_store\<lparr>kv := [[] \<mapsto> cell_bytes leaf_cell]\<rparr>, [hashed_leaf_cell]) \<and>
   kv (healthy_store\<lparr>kv := [[] \<mapsto> cell_bytes leaf_cell]\<rparr>) [] = Some (cell_bytes leaf_cell)"
  using Commit_nested_broken Commit_stale_broken Commit_retry_after_failure Commit_stale_healthy
  by (simp add: nested_trie_def stale_trie_def healthy_store_def hashed_leaf_cell_def leaf_cell_def)

text \<open>
  Claim C2. \<^verbatim>\<open>Commit\<close> keeps the root of the manager: however it ends, the field holds the
  node it held before, neither replaced nor dropped. And a successful \<^verbatim>\<open>Commit\<close> keeps the
  root digest: when \<^verbatim>\<open>RootHash\<close> returned the digest \<open>d\<close> and \<^verbatim>\<open>Commit\<close> then succeeds,
  \<^verbatim>\<open>RootHash\<close> returns \<open>d\<close> after it; and the digest that \<^verbatim>\<open>RootHash\<close> returns from the state
  in which \<^verbatim>\<open>Commit\<close> is called is the digest it returns after the \<^verbatim>\<open>Commit\<close>. The hashing
  walks belong to the node methods. The first digest statement asks of them
  \<open>cached_hash_kept\<close>, the second also \<open>hashing_walks_agree\<close>.
\<close>

theorem Commit_keeps_root_digest:
  "(Commit M mt s h = (res, mt', s', h') \<longrightarrow> root mt' = root mt) \<and>
   (cached_hash_kept M \<and> RootHash M mt h0 = (Returned (d, None), h) \<and>
    Commit M mt s h = (Returned None, mt', s', h') \<longrightarrow>
      RootHash M mt' h' = (Returned (d, None), h')) \<and>
   (cached_hash_kept M \<and> hashing_walks_agree M \<and> RootHash M mt h = (Returned (d, None), h1) \<and>
    Commit M mt s h = (Returned None, mt', s', h') \<longrightarrow>
      RootHash M mt' h' = (Returned (d, None), h'))"
proof -
  have kept_root: "root mt' = root mt" if "Commit M mt s h = (res0, mt', s', h')" for res0
    using that by (rule Commit_root)
  have after_call: "RootHash M mt' h' = (Returned (d, None), h')"
    if kept: "cached_hash_kept M" and before: "RootHash M mt h0 = (Returned (d, None), h)"
      and commit: "Commit M mt s h = (Returned None, mt', s', h')"
  proof (cases "root mt")
    case None
    with before have "d = zero_digest" by (simp add: RootHash_def)
    with None kept_root [OF commit] show ?thesis by (simp add: RootHash_def)
  next
    case (Some r)
    from RootHash_cached [OF before Some] have c1: "getHash M r h = Some d" .
    from Commit_success_heap [OF commit] Some obtain b where
      "descendHashWithCommit M r h = (Returned None, b, h')" by auto
    with kept c1 have "getHash M r h' = Some d"
      unfolding cached_hash_kept_def by blast
    with Some kept_root [OF commit] show ?thesis by (simp add: RootHash_of_cache)
  qed
  have same_state: "RootHash M mt' h' = (Returned (d, None), h')"
    if kept: "cached_hash_kept M" and agree: "hashing_walks_agree M"
      and before: "RootHash M mt h = (Returned (d, None), h1)"
      and commit: "Commit M mt s h = (Returned None, mt', s', h')"
  proof (cases "root mt")
    case None
    with before have "d = zero_digest" by (simp add: RootHash_def)
    with None kept_root [OF commit] show ?thesis by (simp add: RootHash_def)
  next
    case (Some r)
    from Commit_success_heap [OF commit] Some obtain b where
      walk: "descendHashWithCommit M r h = (Returned None, b, h')" by auto
    have "getHash M r h' = Some d"
    proof (cases "getHash M r h")
      case None
      from RootHash_computed [OF before Some None]
      have "descendHash M r h = (Returned None, h1)" and "getHash M r h1 = Some d" by simp_all
      with agree walk show ?thesis
        unfolding hashing_walks_agree_def by metis
    next
      case (Some d0)
      with before \<open>root mt = Some r\<close> have "d0 = d" by (simp add: RootHash_def)
      with kept walk Some show ?thesis
        unfolding cached_hash_kept_def by blast
    qed
    with Some kept_root [OF commit] show ?thesis by (simp add: RootHash_of_cache)
  qed
  from kept_root after_call same_state show ?thesis by blast
qed

theorem Commit_keeps_root_digest_witness:
  "cached_hash_kept cell_methods \<and> hashing_walks_agree cell_methods \<and>
   RootHash cell_methods stale_trie [leaf_cell] =
     (Returned (cell_Hash (cell_bytes leaf_cell), None), [hashed_leaf_cell]) \<and>
   Commit cell_methods stale_trie healthy_store [hashed_leaf_cell] =
     (Returned None, placed_trie, healthy_store, [hashed_leaf_cell]) \<and>
   Commit cell_methods stale_trie healthy_store [leaf_cell] =
     (Returned None, placed_trie, leaf_store, [hashed_leaf_cell]) \<and>
   root placed_trie = root stale_trie \<and>
   RootHash cell_methods placed_trie [hashed_leaf_cell] =
     (Returned (cell_Hash (cell_bytes leaf_cell), None), [hashed_leaf_cell])"
  using Commit_keeps_root_digest [of cell_methods stale_trie healthy_store "[hashed_leaf_cell]"
          "Returned None" placed_trie healthy_store "[hashed_leaf_cell]" "[leaf_cell]"
          "cell_Hash (cell_bytes leaf_cell)" "[hashed_leaf_cell]"]
        Commit_keeps_root_digest [of cell_methods stale_trie healthy_store "[leaf_cell]"
          "Returned None" placed_trie leaf_store "[hashed_leaf_cell]" "[leaf_cell]"
          "cell_Hash (cell_bytes leaf_cell)" "[hashed_leaf_cell]"]
        cell_cached_hash_kept cell_hashing_walks_agree RootHash_stale Commit_stale_hashed
        Commit_stale_healthy
  by (simp add: leaf_store_def stale_trie_def placed_trie_def)

text \<open>
  Claim C9 (fails on the code). The batch that \<^verbatim>\<open>Commit\<close> takes from the store is closed
  only on the path that reaches \<^verbatim>\<open>b.Close()\<close>. Here \<^verbatim>\<open>Apply\<close> fails: \<^verbatim>\<open>Commit\<close> returns the
  error and the store is left with one open batch, where it had none. The same manager
  over a store that does not fail commits and leaves no batch open.
\<close>

theorem Commit_error_leaves_batch_open:
  "open_batches broken_store = 0 \<and>
   Commit cell_methods stale_trie broken_store [leaf_cell] =
     (Returned (Some (Foreign ''apply failed'')), stale_trie,
      broken_store\<lparr>open_batches := 1\<rparr>, [hashed_leaf_cell]) \<and>
   open_batches (fst (snd (snd (Commit cell_methods stale_trie healthy_store [leaf_cell])))) = 0"
  using Commit_stale_broken Commit_stale_healthy
  by (simp add: broken_store_def healthy_store_def)

subsection \<open>Add and Delete\<close>




text \<open>
  Claim C4. \<^verbatim>\<open>Add\<close> and \<^verbatim>\<open>Delete\<close> return the empty-key error exactly when the key has length
  zero and the key-too-long error exactly when its length exceeds \<open>MaxKeyLength\<close>, which is
  65535. In both cases nothing has been touched: the manager and the node heap are returned
  as they were (\<^verbatim>\<open>Delete\<close> also returns \<^verbatim>\<open>false\<close>).
\<close>

theorem key_length_errors:
  "MaxKeyLength = 65535 \<and>
   (length key = 0 \<longrightarrow>
      Add M mt key val s h = (Returned (Some EmptyKey), mt, h) \<and>
      Delete M mt key s h = (Returned (False, Some EmptyKey), mt, h)) \<and>
   (length key > MaxKeyLength \<longrightarrow>
      Add M mt key val s h = (Returned (Some KeyTooLong), mt, h) \<and>
      Delete M mt key s h = (Returned (False, Some KeyTooLong), mt, h)) \<and>
   (fst (Add M mt key val s h) = Returned (Some EmptyKey) \<longrightarrow> length key = 0) \<and>
   (fst (Add M mt key val s h) = Returned (Some KeyTooLong) \<longrightarrow> length key > MaxKeyLength) \<and>
   (fst (Delete M mt key s h) = Returned (found, Some EmptyKey) \<longrightarrow> length key = 0) \<and>
   (fst (Delete M mt key s h) = Returned (found, Some KeyTooLong) \<longrightarrow>
      length key > MaxKeyLength)"
proof -
  have len: "MaxKeyLength = 65535" by (simp add: MaxKeyLength_def)
  have empty: "Add M mt key val s h = (Returned (Some EmptyKey), mt, h) \<and>
      Delete M mt key s h = (Returned (False, Some EmptyKey), mt, h)" if "length key = 0"
    using that by (simp add: Add_def Delete_def)
  have long: "Add M mt key val s h = (Returned (Some KeyTooLong), mt, h) \<and>
      Delete M mt key s h = (Returned (False, Some KeyTooLong), mt, h)"
    if "length key > MaxKeyLength"
  proof -
    from that have "key \<noteq> []" by (auto simp add: MaxKeyLength_def)
    with that show ?thesis by (simp add: Add_def Delete_def)
  qed
  have add_only: "fst (Add M mt key val s h) \<noteq> Returned (Some EmptyKey) \<and>
      fst (Add M mt key val s h) \<noteq> Returned (Some KeyTooLong)"
    if "length key \<noteq> 0" "\<not> length key > MaxKeyLength"
    using that
    by (auto simp add: Add_def split: option.splits prod.splits outcome.splits)
  have del_only: "fst (Delete M mt key s h) \<noteq> Returned (found, Some EmptyKey) \<and>
      fst (Delete M mt key s h) \<noteq> Returned (found, Some KeyTooLong)"
    if "length key \<noteq> 0" "\<not> length key > MaxKeyLength"
    using that
    by (auto simp add: Delete_def split: option.splits prod.splits outcome.splits)
  have a1: "length key = 0" if "fst (Add M mt key val s h) = Returned (Some EmptyKey)"
    using that add_only long by (cases "length key > MaxKeyLength") auto
  have a2: "length key > MaxKeyLength"
    if "fst (Add M mt key val s h) = Returned (Some KeyTooLong)"
    using that add_only empty by (cases "length key = 0") auto
  have d1: "length key = 0" if "fst (Delete M mt key s h) = Returned (found, Some EmptyKey)"
    using that del_only long by (cases "length key > MaxKeyLength") auto
  have d2: "length key > MaxKeyLength"
    if "fst (Delete M mt key s h) = Returned (found, Some KeyTooLong)"
    using that del_only empty by (cases "length key = 0") auto
  from len empty long a1 a2 d1 d2 show ?thesis by blast
qed

theorem key_length_errors_witness:
  "Add cell_methods placed_trie [] [8] healthy_store [leaf_cell] =
     (Returned (Some EmptyKey), placed_trie, [leaf_cell]) \<and>
   Delete cell_methods placed_trie [] healthy_store [leaf_cell] =
     (Returned (False, Some EmptyKey), placed_trie, [leaf_cell]) \<and>
   length (replicate 65536 (1::byte)) > MaxKeyLength \<and>
   Add cell_methods placed_trie (replicate 65536 1) [8] healthy_store [leaf_cell] =
     (Returned (Some KeyTooLong), placed_trie, [leaf_cell]) \<and>
   Delete cell_methods placed_trie (replicate 65536 1) healthy_store [leaf_cell] =
     (Returned (False, Some KeyTooLong), placed_trie, [leaf_cell]) \<and>
   fst (Add cell_methods placed_trie [3] [8] healthy_store [leaf_cell]) =
     Returned (Some (Foreign ''cell: no room for a second key'')) \<and>
   fst (Delete cell_methods placed_trie [3] healthy_store [leaf_cell]) = Returned (False, None)"
  using key_length_errors [of "[]" cell_methods placed_trie "[8]" healthy_store "[leaf_cell]" False]
        key_length_errors [of "replicate 65536 1" cell_methods placed_trie "[8]" healthy_store
          "[leaf_cell]" False]
        descendAdd_refused descendDelete_missing
  by (simp add: Add_def Delete_def placed_trie_def)

subsection \<open>getNode\<close>

text \<open>
  Claim C5 (as the code has it). For a placeholder with a database key: when the key is in
  the pending-delete map, \<^verbatim>\<open>getNode\<close> returns no node and no error, whatever the store holds;
  otherwise, when the store reports an error for the key, \<^verbatim>\<open>getNode\<close> panics with that error
  (it does not return it); when the store yields bytes and \<^verbatim>\<open>deserializeNode\<close> returns an
  error for them, \<^verbatim>\<open>getNode\<close> panics with that error too, and a panic of \<^verbatim>\<open>deserializeNode\<close>
  is the panic of \<^verbatim>\<open>getNode\<close>; and when \<^verbatim>\<open>deserializeNode\<close> accepts the bytes, \<^verbatim>\<open>getNode\<close>
  returns the node that \<^verbatim>\<open>deserializeNode\<close> built from the bytes and the placeholder's path.
\<close>

theorem getNode_behaviour:
  "getDBKey M dbn h = Some dbKey \<longrightarrow>
     (map_of (dels mt) dbKey \<noteq> None \<longrightarrow>
        (\<forall>s0. getNode M mt dbn s0 h = (Returned (None, None), h))) \<and>
     (map_of (dels mt) dbKey = None \<and> db mt = pebble_db \<and> Get s dbKey = Inl err \<longrightarrow>
        getNode M mt dbn s h = (Panicked (PanicErr err), h)) \<and>
     (map_of (dels mt) dbKey = None \<and> db mt = pebble_db \<and> Get s dbKey = Inr dbbytes \<and>
      deserializeNode M dbbytes (getKey M dbn h) h = (Returned (badNode, Some m), h') \<longrightarrow>
        getNode M mt dbn s h = (Panicked (PanicErr (Foreign m)), h')) \<and>
     (map_of (dels mt) dbKey = None \<and> db mt = pebble_db \<and> Get s dbKey = Inr dbbytes \<and>
      deserializeNode M dbbytes (getKey M dbn h) h = (Panicked p, h') \<longrightarrow>
        getNode M mt dbn s h = (Panicked p, h')) \<and>
     (map_of (dels mt) dbKey = None \<and> db mt = pebble_db \<and> Get s dbKey = Inr dbbytes \<and>
      deserializeNode M dbbytes (getKey M dbn h) h = (Returned (trieNode, None), h') \<longrightarrow>
        fst (getNode M mt dbn s h) = Returned (trieNode, None))"
proof -
  have pending: "getNode M mt dbn s0 h = (Returned (None, None), h)"
    if "getDBKey M dbn h = Some dbKey" "map_of (dels mt) dbKey \<noteq> None" for s0
    using that by (auto simp add: getNode_def)
  have failing: "getNode M mt dbn s h = (Panicked (PanicErr err), h)"
    if "getDBKey M dbn h = Some dbKey" "map_of (dels mt) dbKey = None" "db mt = pebble_db"
       "Get s dbKey = Inl err"
    using that by (simp add: getNode_def)
  have malformed: "getNode M mt dbn s h = (Panicked (PanicErr (Foreign m)), h')"
    if "getDBKey M dbn h = Some dbKey" "map_of (dels mt) dbKey = None" "db mt = pebble_db"
       "Get s dbKey = Inr dbbytes"
       "deserializeNode M dbbytes (getKey M dbn h) h = (Returned (badNode, Some m), h')"
    using that by (simp add: getNode_def)
  have panicking: "getNode M mt dbn s h = (Panicked p, h')"
    if "getDBKey M dbn h = Some dbKey" "map_of (dels mt) dbKey = None" "db mt = pebble_db"
       "Get s dbKey = Inr dbbytes"
       "deserializeNode M dbbytes (getKey M dbn h) h = (Panicked p, h')"
    using that by (simp add: getNode_def)
  have loaded: "fst (getNode M mt dbn s h) = Returned (trieNode, None)"
    if "getDBKey M dbn h = Some dbKey" "map_of (dels mt) dbKey = None" "db mt = pebble_db"
       "Get s dbKey = Inr dbbytes"
       "deserializeNode M dbbytes (getKey M dbn h) h = (Returned (trieNode, None), h')"
    using that by (simp add: getNode_def)
  from pending failing malformed panicking loaded show ?thesis by blast
qed

theorem getNode_behaviour_witness:
  "getDBKey cell_methods 0 [placeholder_cell] = Some [] \<and>
   map_of (dels pending_trie) [] = Some 0 \<and>
   getNode cell_methods pending_trie 0 unreadable_store [placeholder_cell] =
     (Returned (None, None), [placeholder_cell]) \<and>
   map_of (dels placed_trie) [] = None \<and> db placed_trie = pebble_db \<and>
   Get unreadable_store [] = Inl (Foreign ''read failed'') \<and>
   getNode cell_methods placed_trie 0 unreadable_store [placeholder_cell] =
     (Panicked (PanicErr (Foreign ''read failed'')), [placeholder_cell]) \<and>
   Get short_store [] = Inr [1] \<and>
   deserializeNode cell_methods [1] [] [placeholder_cell] =
     (Returned (None, Some ''cell: truncated''), [placeholder_cell]) \<and>
   getNode cell_methods placed_trie 0 short_store [placeholder_cell] =
     (Panicked (PanicErr (Foreign ''cell: truncated'')), [placeholder_cell]) \<and>
   Get leaf_store [] = Inr (cell_bytes leaf_cell) \<and>
   deserializeNode cell_methods (cell_bytes leaf_cell) [] [placeholder_cell] =
     (Returned (Some 1, None), [placeholder_cell, leaf_cell]) \<and>
   getNode cell_methods placed_trie 0 leaf_store [placeholder_cell] =
     (Returned (Some 1, None), [placeholder_cell, leaf_cell])"
  using getNode_behaviour [where M = cell_methods and dbn = 0 and h = "[placeholder_cell]"
          and dbKey = "[]" and mt = pending_trie and s = unreadable_store]
        getNode_behaviour [where M = cell_methods and dbn = 0 and h = "[placeholder_cell]"
          and dbKey = "[]" and mt = placed_trie and s = unreadable_store
          and err = "Foreign ''read failed''"]
        getNode_behaviour [where M = cell_methods and dbn = 0 and h = "[placeholder_cell]"
          and dbKey = "[]" and mt = placed_trie and s = short_store and dbbytes = "[1]"
          and badNode = None and m = "''cell: truncated''" and h' = "[placeholder_cell]"]
        getNode_behaviour [where M = cell_methods and dbn = 0 and h = "[placeholder_cell]"
          and dbKey = "[]" and mt = placed_trie and s = leaf_store
          and dbbytes = "cell_bytes leaf_cell" and trieNode = "Some 1"
          and h' = "[placeholder_cell, leaf_cell]"]
        getNode_pending getNode_unreadable getNode_truncated getNode_loaded
  by (simp add: cell_simps pending_trie_def leaf_store_def short_store_def cell_bytes_def)

text \<open>
  The claim as stated fails: over a store whose \<^verbatim>\<open>Get\<close> reports an error, \<^verbatim>\<open>getNode\<close> on a
  placeholder that is not pending does not return; it panics with the store's error.
\<close>

theorem getNode_store_error_panics:
  "Get unreadable_store [] = Inl (Foreign ''read failed'') \<and>
   getNode cell_methods placed_trie 0 unreadable_store [placeholder_cell] =
     (Panicked (PanicErr (Foreign ''read failed'')), [placeholder_cell])"
  using getNode_unreadable by (simp add: cell_simps)

subsection \<open>RootHash of an empty trie\<close>

text \<open>
  Claim C6. A manager made by \<^verbatim>\<open>MakeTrie\<close> has no root, and \<^verbatim>\<open>RootHash\<close> on a manager
  without root returns the digest of 32 zero bytes and no error, and touches no node.
\<close>

theorem RootHash_empty:
  "root (MakeTrie d) = None \<and>
   RootHash M (MakeTrie d) h = (Returned (replicate 32 0, None), h) \<and>
   length (replicate 32 (0::byte)) = 32"
  by (simp add: RootHash_def MakeTrie_def zero_digest_def)

theorem RootHash_empty_witness:
  "RootHash cell_methods (MakeTrie pebble_db) [] = (Returned (replicate 32 0, None), [])"
  using RootHash_empty [of pebble_db cell_methods "[]"] by blast

subsection \<open>Nibble packing\<close>

text \<open>
  Claim C7. A nibble sequence whose elements are all at most 15 is packed without error,
  and unpacking the packed bytes with the reported parity gives the sequence back. The
  five nibbles 0, 1, 2, 3, 4 pack to the bytes \<open>0x01, 0x23, 0x40\<close> with \<open>half\<close> set; the six
  nibbles 0 to 5 pack to \<open>0x01, 0x23, 0x45\<close> with \<open>half\<close> unset; the empty sequence packs to
  no bytes with \<open>half\<close> unset.
\<close>

theorem pack_unpack_roundtrip:
  "((\<forall>x \<in> set n. x \<le> 15) \<longrightarrow>
      (\<exists>bs half. pack n = Inr (bs, half) \<and> unpack bs half = Inr n)) \<and>
   pack [0, 1, 2, 3, 4] = Inr ([0x01, 0x23, 0x40], True) \<and>
   pack [0, 1, 2, 3, 4, 5] = Inr ([0x01, 0x23, 0x45], False) \<and>
   pack [] = Inr ([], False)"
proof -
  have roundtrip: "\<exists>bs half. pack n = Inr (bs, half) \<and> unpack bs half = Inr n"
    if "\<forall>x \<in> set n. x \<le> 15"
  proof -
    from that have nib: "list_all (\<lambda>x. x \<le> 15) n" by (simp add: list_all_iff)
    have "unpack (pack_bytes n) (odd (length n)) = Inr n"
    proof (cases "odd (length n)")
      case True
      with unpack_pack_odd [OF nib] show ?thesis by (simp add: unpack_def)
    next
      case False
      with unpack_pack_even [OF nib] show ?thesis by (simp add: unpack_def)
    qed
    with pack_nibbles [OF nib] show ?thesis by blast
  qed
  have "pack [0, 1, 2, 3, 4] = Inr ([0x01, 0x23, 0x40], True)"
    and "pack [0, 1, 2, 3, 4, 5] = Inr ([0x01, 0x23, 0x45], False)"
    and "pack [] = Inr ([], False)"
    by (simp_all add: pack_def)
  with roundtrip show ?thesis by blast
qed

theorem pack_unpack_roundtrip_witness:
  "pack [4, 1, 2, 3, 4] = Inr ([0x41, 0x23, 0x40], True) \<and>
   unpack [0x41, 0x23, 0x40] True = Inr [4, 1, 2, 3, 4]"
proof -
  have "\<forall>x \<in> set [4, 1, 2, 3, 4 :: byte]. x \<le> 15" by simp
  with pack_unpack_roundtrip [of "[4, 1, 2, 3, 4]"]
  obtain bs half where "pack [4, 1, 2, 3, 4] = Inr (bs, half)"
    and "unpack bs half = Inr [4, 1, 2, 3, 4]" by blast
  then show ?thesis by (simp add: pack_def)
qed

subsection \<open>Nested managers\<close>

text \<open>
  Claim C8. \<^verbatim>\<open>child\<close> returns a manager with the root of its parent, an empty pending-delete
  map, and the parent as parent. On a nested manager whose map has distinct keys (it is a
  Go map), \<^verbatim>\<open>merge\<close> leaves the nested manager's root and map alone, writes the nested root
  into the parent and stores every entry of the nested map in the parent's map, the other
  keys of the parent keeping their entries; and \<^verbatim>\<open>Commit\<close> is \<^verbatim>\<open>merge\<close> followed by \<^verbatim>\<open>Commit\<close>
  on the merged parent, whose result it returns.
\<close>

theorem nested_managers:
  "root (child mt) = root mt \<and> dels (child mt) = [] \<and> parent (child mt) = Some mt \<and>
   (parent mt = Some p \<and> distinct (map fst (dels mt)) \<longrightarrow>
      (\<exists>p1. parent (merge mt) = Some p1 \<and> root (merge mt) = root mt \<and>
            dels (merge mt) = dels mt \<and> root p1 = root mt \<and>
            map_of (dels p1) = map_of (dels p) ++ map_of (dels mt) \<and>
            (\<forall>(k, v) \<in> set (dels mt). map_of (dels p1) k = Some v) \<and>
            Commit M mt s h =
              (case Commit M p1 s h of
                 (res, p2, s', h') \<Rightarrow> (res, set_parent (Some p2) (merge mt), s', h'))))"
proof -
  have child: "root (child mt) = root mt \<and> dels (child mt) = [] \<and> parent (child mt) = Some mt"
    by (simp add: child_def)
  have nested: "\<exists>p1. parent (merge mt) = Some p1 \<and> root (merge mt) = root mt \<and>
            dels (merge mt) = dels mt \<and> root p1 = root mt \<and>
            map_of (dels p1) = map_of (dels p) ++ map_of (dels mt) \<and>
            (\<forall>(k, v) \<in> set (dels mt). map_of (dels p1) k = Some v) \<and>
            Commit M mt s h =
              (case Commit M p1 s h of
                 (res, p2, s', h') \<Rightarrow> (res, set_parent (Some p2) (merge mt), s', h'))"
    if p: "parent mt = Some p" and d: "distinct (map fst (dels mt))"
  proof -
    let ?dl = "fold (\<lambda>(k, v). AList.update k v) (dels mt) (dels p)"
    let ?p1 = "set_dels ?dl (set_root (root mt) p)"
    have 1: "parent (merge mt) = Some ?p1" using p by (rule merge_fields)
    have 2: "map_of ?dl = map_of (dels p) ++ map_of (dels mt)"
      using d by (rule map_of_fold_update)
    have 3: "\<forall>(k, v) \<in> set (dels mt). map_of ?dl k = Some v"
      using d by (auto simp add: 2 map_add_Some_iff)
    have 4: "Commit M mt s h =
              (case Commit M ?p1 s h of
                 (res, p2, s', h') \<Rightarrow> (res, set_parent (Some p2) (merge mt), s', h'))"
      using p 1 by (rule Commit_nested)
    show ?thesis
      using 1 2 3 4 by (intro exI [of _ ?p1]) (simp add: merge_fields)
  qed
  show ?thesis using child nested by blast
qed

theorem nested_managers_witness:
  "root (child nested_trie) = Some 0 \<and> dels (child nested_trie) = [] \<and>
   parent (child nested_trie) = Some nested_trie \<and>
   parent nested_trie = Some stale_trie \<and> distinct (map fst (dels nested_trie)) \<and>
   merge nested_trie =
     Trie nil_db (Some (Trie pebble_db None (Some 0) [([9], 0), ([5], 0)])) (Some 0) [([5], 0)] \<and>
   Commit cell_methods nested_trie old_store [leaf_cell] =
     (Returned None, Trie nil_db (Some placed_trie) (Some 0) [([5], 0)],
      healthy_store\<lparr>kv := [[] \<mapsto> cell_bytes leaf_cell]\<rparr>, [hashed_leaf_cell])"
proof -
  have hyp: "parent nested_trie = Some stale_trie \<and> distinct (map fst (dels nested_trie))"
    by (simp add: nested_trie_def)
  with nested_managers [of nested_trie stale_trie cell_methods old_store "[leaf_cell]"]
  obtain p1 where p1: "parent (merge nested_trie) = Some p1"
    and c: "Commit cell_methods nested_trie old_store [leaf_cell] =
              (case Commit cell_methods p1 old_store [leaf_cell] of
                 (res, p2, s', h') \<Rightarrow> (res, set_parent (Some p2) (merge nested_trie), s', h'))"
    and ch: "root (child nested_trie) = root nested_trie \<and> dels (child nested_trie) = [] \<and>
             parent (child nested_trie) = Some nested_trie"
    by blast
  from p1 have "p1 = Trie pebble_db None (Some 0) [([9], 0), ([5], 0)]"
    by (simp add: merge_nested)
  with c have "Commit cell_methods nested_trie old_store [leaf_cell] =
     (Returned None, Trie nil_db (Some placed_trie) (Some 0) [([5], 0)],
      healthy_store\<lparr>kv := [[] \<mapsto> cell_bytes leaf_cell]\<rparr>, [hashed_leaf_cell])"
    by (simp add: Commit_merged_parent merge_nested set_parent_def)
  with hyp ch merge_nested show ?thesis
    by (simp add: nested_trie_def)
qed

subsection \<open>SetRoot\<close>

text \<open>
  Claim C10. \<^verbatim>\<open>SetRoot\<close> makes the root the placeholder that \<^verbatim>\<open>makeDBNode\<close> builds from the
  digest and the empty path, and changes nothing else of the manager: the pending-delete
  map is the one it was. A successful \<^verbatim>\<open>Commit\<close> of the manager after \<^verbatim>\<open>SetRoot\<close> therefore
  still deletes every key that was pending before \<^verbatim>\<open>SetRoot\<close>: none of them is in the store
  afterwards.
\<close>

theorem SetRoot_keeps_pending_deletes:
  "SetRoot M mt rootdigest h =
     (set_root (Some (fst (makeDBNode M rootdigest [] h))) mt, snd (makeDBNode M rootdigest [] h)) \<and>
   dels (fst (SetRoot M mt rootdigest h)) = dels mt \<and>
   parent (fst (SetRoot M mt rootdigest h)) = parent mt \<and>
   db (fst (SetRoot M mt rootdigest h)) = db mt \<and>
   (Commit M (fst (SetRoot M mt rootdigest h)) s h1 = (Returned None, mt2, s2, h2) \<longrightarrow>
      (\<forall>k \<in> fst ` set (dels mt). kv s2 k = None))"
proof -
  have set: "SetRoot M mt rootdigest h =
     (set_root (Some (fst (makeDBNode M rootdigest [] h))) mt, snd (makeDBNode M rootdigest [] h))"
    by (simp add: SetRoot_def split: prod.splits)
  then have same: "dels (fst (SetRoot M mt rootdigest h)) = dels mt"
    by simp
  have "kv s2 k = None"
    if "Commit M (fst (SetRoot M mt rootdigest h)) s h1 = (Returned None, mt2, s2, h2)"
      and "k \<in> fst ` set (dels mt)" for k
    using Commit_deletes_pending [OF that(1)] that(2) same by simp
  with set show ?thesis by simp
qed

theorem SetRoot_keeps_pending_deletes_witness:
  "SetRoot cell_methods stale_trie (cell_Hash [5]) [] = (stale_trie, [placeholder_cell]) \<and>
   dels stale_trie = [([9], 0)] \<and> kv old_store [9] = Some [1] \<and>
   Commit cell_methods stale_trie old_store [placeholder_cell] =
     (Returned None, placed_trie, healthy_store, [placeholder_cell]) \<and>
   kv healthy_store [9] = None"
  using SetRoot_keeps_pending_deletes [of cell_methods stale_trie "cell_Hash [5]" "[]"
          old_store "[placeholder_cell]" placed_trie healthy_store "[placeholder_cell]"]
        SetRoot_stale Commit_stale_old
  by (simp add: stale_trie_def old_store_def healthy_store_def)

end
